theory Spec2Isabelle
  imports Main
begin

section \<open>Expression nodes with value and Jacobian propagation\<close>

text \<open>
  A shallow embedding of \<^verbatim>\<open>gtsam_unstable/nonlinear/Expression-inl.h\<close>: the class
  \<^verbatim>\<open>Augmented<T>\<close> (a value with a map from keys to Jacobian blocks) and the five
  expression nodes with their methods \<^verbatim>\<open>keys\<close>, \<^verbatim>\<open>value\<close> and \<^verbatim>\<open>augmented\<close>.

  The header is generic in the value types \<^verbatim>\<open>T, A, A1, A2, A3\<close> and builds on Eigen
  matrices. The embedding keeps both opaque:
  \<^item> \<open>'v\<close> is the type of all values held in expressions, \<open>'t\<close> the type of the names
    of the C++ types a leaf can ask for;
  \<^item> \<open>'m\<close> is the type of matrices. The product \<^verbatim>\<open>H * term.second\<close> is \<open>*\<close> and
    the sum of \<^verbatim>\<open>+=\<close> is \<open>+\<close>, of the syntactic classes \<open>times\<close> and \<open>plus\<close>:
    no law is assumed of either unless a theorem says so in the sort of \<open>'m\<close>.
\<close>

subsection \<open>Keys and Jacobian maps\<close>

type_synonym Key = nat

text \<open>
  \<^verbatim>\<open>typedef std::map<Key, Matrix> JacobianMap\<close>: the entries of the map in the order
  in which \<^verbatim>\<open>BOOST_FOREACH\<close> visits them, by increasing key, each key once.
\<close>

type_synonym 'm JacobianMap = "(Key \<times> 'm) list"

text \<open>\<^verbatim>\<open>jacobians_.find(key)\<close>: the block stored under the key, \<open>None\<close> for \<^verbatim>\<open>end()\<close>.\<close>

fun find_key :: "Key \<Rightarrow> 'm JacobianMap \<Rightarrow> 'm option" where
  "find_key k [] = None"
| "find_key k ((k', m) # rest) = (if k = k' then Some m else find_key k rest)"

text \<open>
  \<^verbatim>\<open>jacobians_[key] = m\<close>, and the write through the iterator \<^verbatim>\<open>it->second = m\<close>:
  a new entry at its place in the key order, or the block of the existing entry replaced.
\<close>

fun assign :: "Key \<Rightarrow> 'm \<Rightarrow> 'm JacobianMap \<Rightarrow> 'm JacobianMap" where
  "assign k m [] = [(k, m)]"
| "assign k m ((k', m') # rest) =
     (if k < k' then (k, m) # (k', m') # rest
      else if k = k' then (k, m) # rest
      else (k', m') # assign k m rest)"

subsection \<open>What the header takes from the library\<close>

text \<open>
  The members of the value types and of Eigen that the header calls and that are defined
  outside it: \<^verbatim>\<open>t.dim()\<close>, \<^verbatim>\<open>Eigen::MatrixXd::Identity(n, n)\<close> and the
  default-constructed \<^verbatim>\<open>Matrix H;\<close>. They are parameters of the embedding.
\<close>

record ('v, 'm) library =
  dim :: "'v \<Rightarrow> nat"
  Identity :: "nat \<Rightarrow> nat \<Rightarrow> 'm"
  Matrix_default :: "'m"

subsection \<open>Augmented values\<close>

record ('v, 'm) Augmented =
  aug_value :: "'v"
  jacobians :: "'m JacobianMap"

text \<open>
  One round of the loop in \<^verbatim>\<open>Augmented::add\<close>: look the key of the term up, add
  \<^verbatim>\<open>H * term.second\<close> to the block found, or store it under the new key.
\<close>

definition add_term :: "'m::{plus,times} \<Rightarrow> Key \<times> 'm \<Rightarrow> 'm JacobianMap \<Rightarrow> 'm JacobianMap" where
  "add_term H term jac =
     (case find_key (fst term) jac of
        Some old \<Rightarrow> assign (fst term) (old + H * snd term) jac
      | None \<Rightarrow> assign (fst term) (H * snd term) jac)"

text \<open>\<^verbatim>\<open>Augmented::add(H, terms)\<close> on the member \<^verbatim>\<open>jacobians_\<close>, which is passed and returned.\<close>

definition add :: "'m::{plus,times} \<Rightarrow> 'm JacobianMap \<Rightarrow> 'm JacobianMap \<Rightarrow> 'm JacobianMap" where
  "add H terms jac = fold (add_term H) terms jac"

text \<open>The five constructors of \<^verbatim>\<open>Augmented<T>\<close>, in the order of the header.\<close>

definition Augmented_constant :: "'v \<Rightarrow> ('v, 'm) Augmented" where
  "Augmented_constant t = \<lparr>aug_value = t, jacobians = []\<rparr>"

definition Augmented_key :: "('v, 'm) library \<Rightarrow> 'v \<Rightarrow> Key \<Rightarrow> ('v, 'm) Augmented" where
  "Augmented_key L t key =
     (let n = dim L t in \<lparr>aug_value = t, jacobians = assign key (Identity L n n) []\<rparr>)"

definition Augmented1 :: "'v \<Rightarrow> 'm::{plus,times} \<Rightarrow> 'm JacobianMap \<Rightarrow> ('v, 'm) Augmented" where
  "Augmented1 t H jacs = \<lparr>aug_value = t, jacobians = add H jacs []\<rparr>"

definition Augmented2 ::
  "'v \<Rightarrow> 'm::{plus,times} \<Rightarrow> 'm JacobianMap \<Rightarrow> 'm \<Rightarrow> 'm JacobianMap \<Rightarrow> ('v, 'm) Augmented" where
  "Augmented2 t H1 jacobians1 H2 jacobians2 =
     \<lparr>aug_value = t, jacobians = add H2 jacobians2 (add H1 jacobians1 [])\<rparr>"

definition Augmented3 ::
  "'v \<Rightarrow> 'm::{plus,times} \<Rightarrow> 'm JacobianMap \<Rightarrow> 'm \<Rightarrow> 'm JacobianMap \<Rightarrow> 'm \<Rightarrow> 'm JacobianMap
     \<Rightarrow> ('v, 'm) Augmented" where
  "Augmented3 t H1 jacobians1 H2 jacobians2 H3 jacobians3 =
     \<lparr>aug_value = t,
      jacobians = add H1 jacobians1 (add H3 jacobians3 (add H2 jacobians2 []))\<rparr>"

text \<open>\<^verbatim>\<open>constant()\<close>: \<^verbatim>\<open>jacobians_.empty()\<close>.\<close>

definition is_constant :: "('v, 'm) Augmented \<Rightarrow> bool" where
  "is_constant a = (jacobians a = [])"

subsection \<open>The container of variable values\<close>

text \<open>
  \<^verbatim>\<open>Values\<close>: each key present is bound to a value together with the name of its type.
\<close>

type_synonym ('t, 'v) Values = "Key \<Rightarrow> ('t \<times> 'v) option"

datatype error = MissingVariable Key | TypeMismatch Key

text \<open>
  Modelled from the spec: \<^verbatim>\<open>Values::at<T>(Key)\<close> is declared in
  \<^verbatim>\<open>gtsam/nonlinear/Values.h\<close>, which is not among the sources. The typed lookup
  returns the value stored under the key, and fails distinctly when the key is absent
  and when the stored type is not the type asked for.
\<close>

definition Values_at :: "'t \<Rightarrow> Key \<Rightarrow> ('t, 'v) Values \<Rightarrow> error + 'v" where
  "Values_at T key values =
     (case values key of
        None \<Rightarrow> Inl (MissingVariable key)
      | Some (T', v) \<Rightarrow> if T' = T then Inr v else Inl (TypeMismatch key))"

subsection \<open>Expression nodes\<close>

text \<open>
  The wrapped functions take, after their arguments, one \<^verbatim>\<open>boost::optional<Matrix&>\<close>
  for each argument. A function cannot write through an absent optional, so a wrapped
  function is a function of its arguments and of one flag for each slot (\<open>True\<close>: a matrix
  is passed) to its result and to what it leaves in each matrix it was passed; what it
  returns for a slot it was not passed is never looked at.
\<close>

type_synonym ('v, 'm) Function1 = "'v \<Rightarrow> bool \<Rightarrow> 'v \<times> 'm"
type_synonym ('v, 'm) Function2 = "'v \<Rightarrow> 'v \<Rightarrow> bool \<Rightarrow> bool \<Rightarrow> 'v \<times> 'm \<times> 'm"
type_synonym ('v, 'm) Function3 =
  "'v \<Rightarrow> 'v \<Rightarrow> 'v \<Rightarrow> bool \<Rightarrow> bool \<Rightarrow> bool \<Rightarrow> 'v \<times> 'm \<times> 'm \<times> 'm"

text \<open>
  The subclasses of \<^verbatim>\<open>ExpressionNode<T>\<close> with their members. A leaf carries the
  name of its type \<^verbatim>\<open>T\<close>, which \<^verbatim>\<open>values.at<T>\<close> checks.
\<close>

datatype ('t, 'v, 'm) ExpressionNode =
    ConstantExpression 'v
  | LeafExpression 't Key
  | UnaryExpression "('v, 'm) Function1" "('t, 'v, 'm) ExpressionNode"
  | BinaryExpression "('v, 'm) Function2" "('t, 'v, 'm) ExpressionNode"
      "('t, 'v, 'm) ExpressionNode"
  | TernaryExpression "('v, 'm) Function3" "('t, 'v, 'm) ExpressionNode"
      "('t, 'v, 'm) ExpressionNode" "('t, 'v, 'm) ExpressionNode"

text \<open>\<^verbatim>\<open>keys()\<close>: a \<^verbatim>\<open>std::set<Key>\<close>; inserting a range into a set is the union.\<close>

fun keys :: "('t, 'v, 'm) ExpressionNode \<Rightarrow> Key set" where
  "keys (ConstantExpression c) = {}"
| "keys (LeafExpression T key) = insert key {}"
| "keys (UnaryExpression f eA) = keys eA"
| "keys (BinaryExpression f e1 e2) =
     (let keys1 = keys e1; keys2 = keys e2 in keys1 \<union> keys2)"
| "keys (TernaryExpression f e1 e2 e3) =
     (let keys1 = keys e1; keys2 = keys e2; keys3 = keys e3;
          keys2 = keys2 \<union> keys3
      in keys1 \<union> keys2)"

text \<open>
  \<^verbatim>\<open>value(values)\<close> of the constant and of the leaf, which their
  \<^verbatim>\<open>augmented\<close> calls as well.
\<close>

fun ConstantExpression_value :: "'v \<Rightarrow> ('t, 'v) Values \<Rightarrow> error + 'v" where
  "ConstantExpression_value c values = Inr c"

fun LeafExpression_value :: "'t \<Rightarrow> Key \<Rightarrow> ('t, 'v) Values \<Rightarrow> error + 'v" where
  "LeafExpression_value T key values = Values_at T key values"

text \<open>
  The binary and the ternary node evaluate their children as the arguments of one call of
  the wrapped function, and C++ leaves open in which order a call evaluates its arguments.
  The order is a parameter: \<open>ord n i\<close> is the rank of the argument at position \<open>i\<close>
  (from 0) of a call with \<open>n\<close> arguments; the argument of the least rank is evaluated
  first, and of two arguments of the same rank the left one. The children have no effects,
  so the order shows only when several of them throw: the exception that leaves the node
  is that of the child evaluated first among those.
\<close>

type_synonym ArgumentOrder = "nat \<Rightarrow> nat \<Rightarrow> nat"

definition first_thrown :: "(nat \<Rightarrow> nat) \<Rightarrow> nat \<times> error \<Rightarrow> nat \<times> error \<Rightarrow> nat \<times> error" where
  "first_thrown rank x y = (if rank (fst y) < rank (fst x) then y else x)"

text \<open>
  \<^verbatim>\<open>value(values)\<close>. The wrapped function is called when every child has returned
  a value, with no slot passed.
\<close>

fun value_of ::
  "ArgumentOrder \<Rightarrow> ('t, 'v, 'm) ExpressionNode \<Rightarrow> ('t, 'v) Values \<Rightarrow> error + 'v" where
  "value_of ord (ConstantExpression c) values = ConstantExpression_value c values"
| "value_of ord (LeafExpression T key) values = LeafExpression_value T key values"
| "value_of ord (UnaryExpression f eA) values =
     (case value_of ord eA values of
        Inl err \<Rightarrow> Inl err
      | Inr a \<Rightarrow> Inr (fst (f a False)))"
| "value_of ord (BinaryExpression f e1 e2) values =
     (let r1 = value_of ord e1 values; r2 = value_of ord e2 values in
      case r1 of
        Inr a1 \<Rightarrow>
         (case r2 of
            Inr a2 \<Rightarrow> Inr (fst (f a1 a2 False False))
          | Inl err2 \<Rightarrow> Inl err2)
      | Inl err1 \<Rightarrow>
         (case r2 of
            Inr a2 \<Rightarrow> Inl err1
          | Inl err2 \<Rightarrow> Inl (snd (first_thrown (ord 2) (0, err1) (1, err2)))))"
| "value_of ord (TernaryExpression f e1 e2 e3) values =
     (let r1 = value_of ord e1 values; r2 = value_of ord e2 values;
          r3 = value_of ord e3 values in
      case r1 of
        Inr a1 \<Rightarrow>
         (case r2 of
            Inr a2 \<Rightarrow>
             (case r3 of
                Inr a3 \<Rightarrow> Inr (fst (f a1 a2 a3 False False False))
              | Inl err3 \<Rightarrow> Inl err3)
          | Inl err2 \<Rightarrow>
             (case r3 of
                Inr a3 \<Rightarrow> Inl err2
              | Inl err3 \<Rightarrow> Inl (snd (first_thrown (ord 3) (1, err2) (2, err3)))))
      | Inl err1 \<Rightarrow>
         (case r2 of
            Inr a2 \<Rightarrow>
             (case r3 of
                Inr a3 \<Rightarrow> Inl err1
              | Inl err3 \<Rightarrow> Inl (snd (first_thrown (ord 3) (0, err1) (2, err3))))
          | Inl err2 \<Rightarrow>
             (case r3 of
                Inr a3 \<Rightarrow> Inl (snd (first_thrown (ord 3) (0, err1) (1, err2)))
              | Inl err3 \<Rightarrow>
                  Inl (snd (first_thrown (ord 3)
                              (first_thrown (ord 3) (0, err1) (1, err2)) (2, err3))))))"

text \<open>
  \<^verbatim>\<open>argument.constant() ? none : boost::optional<Matrix&>(H)\<close>: whether the slot for
  the Jacobian with respect to this argument is passed.
\<close>

definition requested :: "('v, 'm) Augmented \<Rightarrow> bool" where
  "requested argument = (\<not> is_constant argument)"

text \<open>
  The matrix \<^verbatim>\<open>H\<close> after the call: default-constructed, and written by the wrapped
  function only if it was passed.
\<close>

definition slot :: "('v, 'm) library \<Rightarrow> ('v, 'm) Augmented \<Rightarrow> 'm \<Rightarrow> 'm" where
  "slot L argument written = (if requested argument then written else Matrix_default L)"

text \<open>
  \<^verbatim>\<open>augmented(values)\<close>. The children are evaluated in separate statements, the
  first child first. The ternary node computes the augmented values of its three
  children and passes three slots, and returns through the constructor of two pairs.
\<close>

fun augmented ::
  "('v, 'm::{plus,times}) library \<Rightarrow> ('t, 'v, 'm) ExpressionNode \<Rightarrow> ('t, 'v) Values
     \<Rightarrow> error + ('v, 'm) Augmented" where
  "augmented L (ConstantExpression c) values =
     (case ConstantExpression_value c values of
        Inl err \<Rightarrow> Inl err
      | Inr t \<Rightarrow> Inr (Augmented_constant t))"
| "augmented L (LeafExpression T key) values =
     (case LeafExpression_value T key values of
        Inl err \<Rightarrow> Inl err
      | Inr t \<Rightarrow> Inr (Augmented_key L t key))"
| "augmented L (UnaryExpression f eA) values =
     (case augmented L eA values of
        Inl err \<Rightarrow> Inl err
      | Inr argument \<Rightarrow>
         (case f (aug_value argument) (requested argument) of
            (t, W) \<Rightarrow>
              Inr (Augmented1 t (slot L argument W) (jacobians argument))))"
| "augmented L (BinaryExpression f e1 e2) values =
     (case augmented L e1 values of
        Inl err \<Rightarrow> Inl err
      | Inr argument1 \<Rightarrow>
         (case augmented L e2 values of
            Inl err \<Rightarrow> Inl err
          | Inr argument2 \<Rightarrow>
             (case f (aug_value argument1) (aug_value argument2)
                     (requested argument1) (requested argument2) of
                (t, W1, W2) \<Rightarrow>
                  Inr (Augmented2 t (slot L argument1 W1) (jacobians argument1)
                                    (slot L argument2 W2) (jacobians argument2)))))"
| "augmented L (TernaryExpression f e1 e2 e3) values =
     (case augmented L e1 values of
        Inl err \<Rightarrow> Inl err
      | Inr argument1 \<Rightarrow>
         (case augmented L e2 values of
            Inl err \<Rightarrow> Inl err
          | Inr argument2 \<Rightarrow>
             (case augmented L e3 values of
                Inl err \<Rightarrow> Inl err
              | Inr argument3 \<Rightarrow>
                 (case f (aug_value argument1) (aug_value argument2) (aug_value argument3)
                         (requested argument1) (requested argument2) (requested argument3) of
                    (t, W1, W2, W3) \<Rightarrow>
                      Inr (Augmented2 t (slot L argument1 W1) (jacobians argument1)
                                        (slot L argument2 W2) (jacobians argument2))))))"

subsection \<open>Notions the properties are stated with\<close>

text \<open>
  The invariant of \<^verbatim>\<open>std::map\<close>: the entries are in strictly increasing order of
  their keys.
\<close>

definition ordered :: "'m JacobianMap \<Rightarrow> bool" where
  "ordered jac = sorted_wrt (<) (map fst jac)"

text \<open>
  The keys of the leaves that can be reached in the subtree of a node, in the order of a
  walk from left to right, a key once for every leaf that carries it.
\<close>

fun leaf_keys :: "('t, 'v, 'm) ExpressionNode \<Rightarrow> Key list" where
  "leaf_keys (ConstantExpression c) = []"
| "leaf_keys (LeafExpression T key) = [key]"
| "leaf_keys (UnaryExpression f eA) = leaf_keys eA"
| "leaf_keys (BinaryExpression f e1 e2) = leaf_keys e1 @ leaf_keys e2"
| "leaf_keys (TernaryExpression f e1 e2 e3) = leaf_keys e1 @ leaf_keys e2 @ leaf_keys e3"

text \<open>
  A binding satisfies the dependencies of a node when every leaf in its subtree finds its
  key bound to a value of the leaf's type.
\<close>

fun satisfied :: "('t, 'v, 'm) ExpressionNode \<Rightarrow> ('t, 'v) Values \<Rightarrow> bool" where
  "satisfied (ConstantExpression c) values = True"
| "satisfied (LeafExpression T key) values =
     (case values key of None \<Rightarrow> False | Some (T', v) \<Rightarrow> T' = T)"
| "satisfied (UnaryExpression f eA) values = satisfied eA values"
| "satisfied (BinaryExpression f e1 e2) values = (satisfied e1 values \<and> satisfied e2 values)"
| "satisfied (TernaryExpression f e1 e2 e3) values =
     (satisfied e1 values \<and> satisfied e2 values \<and> satisfied e3 values)"

text \<open>
  The contract of the wrapped functions that the header relies on: the value returned is
  the same whichever Jacobian slots are passed.
\<close>

fun same_value :: "('t, 'v, 'm) ExpressionNode \<Rightarrow> bool" where
  "same_value (ConstantExpression c) = True"
| "same_value (LeafExpression T key) = True"
| "same_value (UnaryExpression f eA) =
     ((\<forall>a r. fst (f a r) = fst (f a False)) \<and> same_value eA)"
| "same_value (BinaryExpression f e1 e2) =
     ((\<forall>a1 a2 r1 r2. fst (f a1 a2 r1 r2) = fst (f a1 a2 False False))
      \<and> same_value e1 \<and> same_value e2)"
| "same_value (TernaryExpression f e1 e2 e3) =
     ((\<forall>a1 a2 a3 r1 r2 r3. fst (f a1 a2 a3 r1 r2 r3) = fst (f a1 a2 a3 False False False))
      \<and> same_value e1 \<and> same_value e2 \<and> same_value e3)"

subsection \<open>The arithmetic of doubles\<close>

text \<open>
  The entries of an Eigen matrix are IEEE doubles, whose sum and product are rounded. The
  doubles that are whole numbers are enough to show the rounding: an integer is a double
  when its magnitude, shifted right until it is below \<open>2 ^ 53\<close>, loses only zero bits,
  and the sum or the product of two such doubles is the exact result rounded to the nearest
  double, on a tie to the one with the even significand. The magnitudes stay far below the
  largest double; overflow is not modelled.
\<close>

function excess_bits :: "int \<Rightarrow> nat" where
  "excess_bits a = (if a < 2 ^ 53 then 0 else 1 + excess_bits (a div 2))"
  by pat_completeness auto
termination
  by (relation "measure nat") auto

declare excess_bits.simps [simp del]

definition round_to_double :: "int \<Rightarrow> int" where
  "round_to_double x =
     (let a = abs x; s = excess_bits a; q = a div 2 ^ s; r = a mod 2 ^ s;
          q' = (if 2 ^ s < 2 * r \<or> (2 * r = 2 ^ s \<and> odd q) then q + 1 else q)
      in sgn x * (q' * 2 ^ s))"

datatype double = Double int

instantiation double :: "{plus,times}"
begin

fun plus_double :: "double \<Rightarrow> double \<Rightarrow> double" where
  "plus_double (Double x) (Double y) = Double (round_to_double (x + y))"

fun times_double :: "double \<Rightarrow> double \<Rightarrow> double" where
  "times_double (Double x) (Double y) = Double (round_to_double (x * y))"

instance ..

end

subsection \<open>An instance to evaluate on\<close>

text \<open>
  Scalars as values and as one-by-one matrices: every value has dimension one, the
  identity matrix is \<open>1\<close>. The wrapped functions are the square, the product, and the
  residual \<open>measured - (s * d + b)\<close> with \<open>measured = 10\<close>, each with its partial
  derivatives.
\<close>

definition scalar_library :: "(int, int) library" where
  "scalar_library = \<lparr>dim = (\<lambda>t. 1), Identity = (\<lambda>rows cols. 1), Matrix_default = 0\<rparr>"

definition square1 :: "(int, int) Function1" where
  "square1 a r = (a * a, 2 * a)"

definition multiply2 :: "(int, int) Function2" where
  "multiply2 a1 a2 r1 r2 = (a1 * a2, a2, a1)"

definition residual3 :: "(int, int) Function3" where
  "residual3 s d b r1 r2 r3 = (10 - (s * d + b), - d, - s, - 1)"

definition bindings :: "(string, int) Values" where
  "bindings =
     [1 \<mapsto> (''LieScalar'', 2), 2 \<mapsto> (''LieScalar'', 3), 3 \<mapsto> (''LieScalar'', 4)]"

text \<open>The two orders of evaluation that compilers use.\<close>

definition left_to_right :: ArgumentOrder where
  "left_to_right n i = i"

definition right_to_left :: ArgumentOrder where
  "right_to_left n i = n - i"

section \<open>Properties of the Jacobian map\<close>

lemma find_key_map_of: "find_key k jac = map_of jac k"
  by (induction jac) auto

lemma find_key_assign:
  "find_key k' (assign k m jac) = (if k' = k then Some m else find_key k' jac)"
  by (induction jac) auto

lemma keys_assign: "fst ` set (assign k m jac) = insert k (fst ` set jac)"
proof (induction jac)
  case Nil
  show ?case by simp
next
  case (Cons e jac)
  obtain k' m' where e: "e = (k', m')" by (cases e)
  show ?case unfolding e using Cons.IH by (simp add: insert_commute)
qed

lemma ordered_assign: "ordered jac \<Longrightarrow> ordered (assign k m jac)"
  unfolding ordered_def
proof (induction jac)
  case Nil
  then show ?case by simp
next
  case (Cons e jac)
  have "fst ` set (assign k m jac) = insert k (fst ` set jac)"
    by (rule keys_assign)
  with Cons show ?case by (cases e) auto
qed

lemma find_key_None: "find_key k jac = None \<longleftrightarrow> k \<notin> fst ` set jac"
  by (simp add: find_key_map_of map_of_eq_None_iff)

lemma ordered_distinct: "ordered jac \<Longrightarrow> distinct (map fst jac)"
  unfolding ordered_def by (simp add: strict_sorted_iff)


section \<open>Properties of the accumulation\<close>

lemma find_key_add_term:
  "find_key k' (add_term H tm jac) =
     (if k' = fst tm
      then Some (case find_key (fst tm) jac of
                   Some old \<Rightarrow> old + H * snd tm | None \<Rightarrow> H * snd tm)
      else find_key k' jac)"
  by (simp add: add_term_def find_key_assign split: option.splits)

lemma keys_add_term: "fst ` set (add_term H tm jac) = insert (fst tm) (fst ` set jac)"
  by (simp add: add_term_def keys_assign split: option.splits)

lemma ordered_add_term: "ordered jac \<Longrightarrow> ordered (add_term H tm jac)"
  by (simp add: add_term_def ordered_assign split: option.splits)

lemma add_Nil: "add H [] jac = jac"
  by (simp add: add_def)

lemma add_Cons: "add H (tm # tms) jac = add H tms (add_term H tm jac)"
  by (simp add: add_def)

lemma keys_add: "fst ` set (add H tms jac) = fst ` set tms \<union> fst ` set jac"
  unfolding add_def
  by (induction tms arbitrary: jac) (auto simp: keys_add_term)

lemma ordered_add: "ordered jac \<Longrightarrow> ordered (add H tms jac)"
  unfolding add_def
  by (induction tms arbitrary: jac) (auto simp: ordered_add_term)

text \<open>A key that no term carries keeps its entry, or stays absent.\<close>

lemma find_key_add_absent:
  "k \<notin> fst ` set tms \<Longrightarrow> find_key k (add H tms jac) = find_key k jac"
  unfolding add_def
  by (induction tms arbitrary: jac) (auto simp: find_key_add_term)

text \<open>
  The rule of the accumulation: the block of a term whose key is new is stored as
  \<open>H * b\<close>, the block of a term whose key is present is added to the block found.
\<close>

lemma find_key_add_present:
  "distinct (map fst tms) \<Longrightarrow> find_key k tms = Some b \<Longrightarrow>
   find_key k (add H tms jac) =
     Some (case find_key k jac of Some old \<Rightarrow> old + H * b | None \<Rightarrow> H * b)"
proof (induction tms arbitrary: jac)
  case Nil
  then show ?case by simp
next
  case (Cons tm tms)
  show ?case
  proof (cases "k = fst tm")
    case True
    with Cons.prems have b: "snd tm = b" by (cases tm) auto
    from True Cons.prems have "k \<notin> fst ` set tms" by auto
    then have "find_key k (add H tms (add_term H tm jac)) = find_key k (add_term H tm jac)"
      by (rule find_key_add_absent)
    then show ?thesis
      using True b by (simp add: add_Cons find_key_add_term split: option.splits)
  next
    case False
    with Cons.prems have "find_key k tms = Some b" by (cases tm) auto
    moreover from Cons.prems have "distinct (map fst tms)" by simp
    ultimately show ?thesis
      using Cons.IH False by (simp add: add_Cons find_key_add_term)
  qed
qed

section \<open>Properties of the nodes\<close>

lemma Augmented_key_unfold:
  "Augmented_key L t k = \<lparr>aug_value = t, jacobians = [(k, Identity L (dim L t) (dim L t))]\<rparr>"
  by (simp add: Augmented_key_def Let_def)

lemma aug_value_simps:
  "aug_value (Augmented_constant t :: ('v, 'm) Augmented) = t"
  "aug_value (Augmented_key L t k) = t"
  "aug_value (Augmented1 t H j) = t"
  "aug_value (Augmented2 t H1 j1 H2 j2) = t"
  "aug_value (Augmented3 t H1 j1 H2 j2 H3 j3) = t"
  by (simp_all add: Augmented_constant_def Augmented_key_unfold Augmented1_def Augmented2_def
      Augmented3_def)

lemma jacobians_simps:
  "jacobians (Augmented_constant t :: ('v, 'm) Augmented) = []"
  "jacobians (Augmented_key L t k) = [(k, Identity L (dim L t) (dim L t))]"
  "jacobians (Augmented1 t H j) = add H j []"
  "jacobians (Augmented2 t H1 j1 H2 j2) = add H2 j2 (add H1 j1 [])"
  "jacobians (Augmented3 t H1 j1 H2 j2 H3 j3) = add H1 j1 (add H3 j3 (add H2 j2 []))"
  by (simp_all add: Augmented_constant_def Augmented_key_unfold Augmented1_def Augmented2_def
      Augmented3_def)

lemma ordered_Nil: "ordered []"
  by (simp add: ordered_def)

lemma augmented_Unary:
  assumes "augmented L eA vals = Inr argument"
  shows "augmented L (UnaryExpression f eA) vals =
    Inr (Augmented1 (fst (f (aug_value argument) (requested argument)))
          (slot L argument (snd (f (aug_value argument) (requested argument))))
          (jacobians argument))"
  using assms by (simp split: prod.splits)

lemma augmented_Binary:
  assumes "augmented L e1 vals = Inr argument1" and "augmented L e2 vals = Inr argument2"
  shows "augmented L (BinaryExpression f e1 e2) vals =
    Inr (Augmented2
          (fst (f (aug_value argument1) (aug_value argument2)
                  (requested argument1) (requested argument2)))
          (slot L argument1
             (fst (snd (f (aug_value argument1) (aug_value argument2)
                          (requested argument1) (requested argument2)))))
          (jacobians argument1)
          (slot L argument2
             (snd (snd (f (aug_value argument1) (aug_value argument2)
                          (requested argument1) (requested argument2)))))
          (jacobians argument2))"
  using assms by (simp split: prod.splits)

lemma augmented_Ternary:
  assumes "augmented L e1 vals = Inr argument1" and "augmented L e2 vals = Inr argument2"
    and "augmented L e3 vals = Inr argument3"
  shows "augmented L (TernaryExpression f e1 e2 e3) vals =
    Inr (Augmented2
          (fst (f (aug_value argument1) (aug_value argument2) (aug_value argument3)
                  (requested argument1) (requested argument2) (requested argument3)))
          (slot L argument1
             (fst (snd (f (aug_value argument1) (aug_value argument2) (aug_value argument3)
                          (requested argument1) (requested argument2) (requested argument3)))))
          (jacobians argument1)
          (slot L argument2
             (fst (snd (snd (f (aug_value argument1) (aug_value argument2) (aug_value argument3)
                          (requested argument1) (requested argument2) (requested argument3))))))
          (jacobians argument2))"
  using assms by (simp split: prod.splits)

lemma augmented_Unary_Inr:
  assumes "augmented L (UnaryExpression f eA) vals = Inr a"
  obtains argument H where "augmented L eA vals = Inr argument"
    and "jacobians a = add H (jacobians argument) []"
proof -
  from assms obtain argument where arg: "augmented L eA vals = Inr argument"
    by (auto split: sum.splits)
  from assms [unfolded augmented_Unary [OF arg]]
  have "a = Augmented1 (fst (f (aug_value argument) (requested argument)))
          (slot L argument (snd (f (aug_value argument) (requested argument))))
          (jacobians argument)"
    by simp
  then have "jacobians a =
      add (slot L argument (snd (f (aug_value argument) (requested argument))))
        (jacobians argument) []"
    by (simp add: jacobians_simps)
  with arg show thesis by (rule that)
qed

lemma augmented_Binary_Inr:
  assumes "augmented L (BinaryExpression f e1 e2) vals = Inr a"
  obtains argument1 argument2 H1 H2 where "augmented L e1 vals = Inr argument1"
    and "augmented L e2 vals = Inr argument2"
    and "jacobians a = add H2 (jacobians argument2) (add H1 (jacobians argument1) [])"
proof -
  from assms obtain argument1 argument2
    where arg: "augmented L e1 vals = Inr argument1" "augmented L e2 vals = Inr argument2"
    by (auto split: sum.splits)
  let ?r = "f (aug_value argument1) (aug_value argument2)
              (requested argument1) (requested argument2)"
  from assms [unfolded augmented_Binary [OF arg]]
  have "a = Augmented2 (fst ?r) (slot L argument1 (fst (snd ?r))) (jacobians argument1)
          (slot L argument2 (snd (snd ?r))) (jacobians argument2)"
    by simp
  then have "jacobians a =
      add (slot L argument2 (snd (snd ?r))) (jacobians argument2)
        (add (slot L argument1 (fst (snd ?r))) (jacobians argument1) [])"
    by (simp add: jacobians_simps)
  with arg show thesis by (rule that)
qed

lemma augmented_Ternary_Inr:
  assumes "augmented L (TernaryExpression f e1 e2 e3) vals = Inr a"
  obtains argument1 argument2 argument3 H1 H2 where "augmented L e1 vals = Inr argument1"
    and "augmented L e2 vals = Inr argument2" and "augmented L e3 vals = Inr argument3"
    and "jacobians a = add H2 (jacobians argument2) (add H1 (jacobians argument1) [])"
proof -
  from assms obtain argument1 argument2 argument3
    where arg: "augmented L e1 vals = Inr argument1" "augmented L e2 vals = Inr argument2"
      "augmented L e3 vals = Inr argument3"
    by (auto split: sum.splits)
  let ?r = "f (aug_value argument1) (aug_value argument2) (aug_value argument3)
              (requested argument1) (requested argument2) (requested argument3)"
  from assms [unfolded augmented_Ternary [OF arg]]
  have "a = Augmented2 (fst ?r) (slot L argument1 (fst (snd ?r))) (jacobians argument1)
          (slot L argument2 (fst (snd (snd ?r)))) (jacobians argument2)"
    by simp
  then have "jacobians a =
      add (slot L argument2 (fst (snd (snd ?r)))) (jacobians argument2)
        (add (slot L argument1 (fst (snd ?r))) (jacobians argument1) [])"
    by (simp add: jacobians_simps)
  with arg show thesis by (rule that)
qed

lemma augmented_ordered:
  assumes "augmented L e vals = Inr a"
  shows "ordered (jacobians a)"
proof (cases e)
  case (ConstantExpression c)
  with assms show ?thesis
    by (auto simp: jacobians_simps ordered_Nil)
next
  case (LeafExpression T k)
  with assms show ?thesis
    by (auto simp: jacobians_simps ordered_def split: sum.splits)
next
  case (UnaryExpression f eA)
  with assms have "augmented L (UnaryExpression f eA) vals = Inr a" by (simp only:)
  then obtain arg H where "augmented L eA vals = Inr arg"
    and "jacobians a = add H (jacobians arg) []"
    by (rule augmented_Unary_Inr)
  then show ?thesis
    by (simp add: ordered_add ordered_Nil)
next
  case (BinaryExpression f e1 e2)
  with assms have "augmented L (BinaryExpression f e1 e2) vals = Inr a" by (simp only:)
  then obtain a1 a2 H1 H2 where "augmented L e1 vals = Inr a1"
    and "augmented L e2 vals = Inr a2"
    and "jacobians a = add H2 (jacobians a2) (add H1 (jacobians a1) [])"
    by (rule augmented_Binary_Inr)
  then show ?thesis
    by (simp add: ordered_add ordered_Nil)
next
  case (TernaryExpression f e1 e2 e3)
  with assms have "augmented L (TernaryExpression f e1 e2 e3) vals = Inr a" by (simp only:)
  then obtain a1 a2 a3 H1 H2 where "augmented L e1 vals = Inr a1"
    and "augmented L e2 vals = Inr a2" and "augmented L e3 vals = Inr a3"
    and "jacobians a = add H2 (jacobians a2) (add H1 (jacobians a1) [])"
    by (rule augmented_Ternary_Inr)
  then show ?thesis
    by (simp add: ordered_add ordered_Nil)
qed


lemma find_key_Some_requested:
  "find_key k (jacobians a) = Some b \<Longrightarrow> requested a"
  by (auto simp: requested_def is_constant_def)

lemmas example_defs = scalar_library_def square1_def multiply2_def residual3_def bindings_def
  Values_at_def Augmented_key_unfold Augmented_constant_def Augmented1_def Augmented2_def
  Augmented3_def add_def add_term_def requested_def is_constant_def slot_def

subsection \<open>A pair with an empty map\<close>

text \<open>
  The loop of \<open>add\<close> over an empty map does not run: the matrix passed with it is not
  looked at, and the pair leaves the result as it was.
\<close>

lemma empty_pair_ignored:
  "Augmented1 t H [] = Augmented_constant t"
  "Augmented2 t H1 [] H2 j2 = Augmented1 t H2 j2"
  "Augmented2 t H1 j1 H2 [] = Augmented1 t H1 j1"
  "Augmented3 t H1 [] H2 j2 H3 j3 = Augmented2 t H2 j2 H3 j3"
  "Augmented3 t H1 j1 H2 [] H3 j3 = Augmented2 t H3 j3 H1 j1"
  "Augmented3 t H1 j1 H2 j2 H3 [] = Augmented2 t H2 j2 H1 j1"
  by (simp_all add: Augmented1_def Augmented2_def Augmented3_def Augmented_constant_def add_Nil)

lemma unary_constant_child:
  assumes "augmented L eA vals = Inr a" and "is_constant a"
  shows "augmented L (UnaryExpression f eA) vals =
    Inr (Augmented_constant (fst (f (aug_value a) False)))"
  using assms
  by (simp add: is_constant_def requested_def Augmented1_def Augmented_constant_def add_Nil
      split: prod.splits)

lemma binary_constant_child:
  assumes "augmented L e1 vals = Inr a1" and "augmented L e2 vals = Inr a2"
    and "f (aug_value a1) (aug_value a2) (requested a1) (requested a2) = (t, W1, W2)"
  shows "is_constant a1 \<Longrightarrow>
      augmented L (BinaryExpression f e1 e2) vals =
        Inr (Augmented1 t (slot L a2 W2) (jacobians a2))"
    and "is_constant a2 \<Longrightarrow>
      augmented L (BinaryExpression f e1 e2) vals =
        Inr (Augmented1 t (slot L a1 W1) (jacobians a1))"
  using assms by (simp_all add: is_constant_def Augmented1_def Augmented2_def add_Nil)

subsection \<open>Exchanging pairs\<close>




subsection \<open>Rounding\<close>




subsection \<open>The order of evaluation\<close>

text \<open>
  When every child returns a value, the order does not show. When two children throw, it
  decides which exception leaves the node.
\<close>

lemma value_of_order_decides:
  "value_of left_to_right
     (BinaryExpression multiply2 (LeafExpression ''LieScalar'' 7)
        (LeafExpression ''LieScalar'' 8)) bindings = Inl (MissingVariable 7)"
  "value_of right_to_left
     (BinaryExpression multiply2 (LeafExpression ''LieScalar'' 7)
        (LeafExpression ''LieScalar'' 8)) bindings = Inl (MissingVariable 8)"
  by (simp_all add: left_to_right_def right_to_left_def first_thrown_def bindings_def
      Values_at_def Let_def)

section \<open>The claims\<close>

text \<open>
  Claim C1: the Jacobian map of a ternary node holds, under each key, the sum over all
  three children of the local Jacobian times the child's block, the third child folded in
  like the first two. The ternary node does not do this. It computes the augmented value
  of its third child and passes the slot for \<open>H3\<close>, and then returns through the
  constructor of two pairs, with the first two children only. On the residual over the
  leaves with keys 1, 2 and 3, the third child carries key 3 with block \<open>1\<close> and the
  local Jacobian written for it is \<open>- 1\<close>; the map returned has the entries of keys 1
  and 2 and nothing under key 3, where the constructor of three pairs stores \<open>- 1\<close>.
\<close>

theorem ternary_third_mapping_dropped:
  "augmented scalar_library
     (TernaryExpression residual3 (LeafExpression ''LieScalar'' 1)
        (LeafExpression ''LieScalar'' 2) (LeafExpression ''LieScalar'' 3)) bindings =
     Inr \<lparr>aug_value = 0, jacobians = [(1, - 3), (2, - 2)]\<rparr>
   \<and> find_key 3 [(1, - 3), (2, - 2 :: int)] = None
   \<and> augmented scalar_library (LeafExpression ''LieScalar'' 3) bindings =
     Inr \<lparr>aug_value = 4, jacobians = [(3, 1)]\<rparr>
   \<and> residual3 2 3 4 True True True = (0, - 3, - 2, - 1)
   \<and> jacobians (Augmented3 (0 :: int) (- 3) [(1, 1)] (- 2) [(2, 1)] (- 1) [(3, 1 :: int)]) =
     [(1, - 3), (2, - 2), (3, - 1)]"
  by (simp add: example_defs)

text \<open>
  Claim C2: for every node and every binding that satisfies the dependencies of all its
  leaves, if each wrapped function returns the same value whichever Jacobian slots are
  passed, then \<open>augmented\<close> returns, and \<open>value\<close> returns the value held in the
  augmented value.
\<close>

theorem value_augmented_consistent:
  assumes "satisfied e vals" and "same_value e"
  shows "\<exists>a. augmented L e vals = Inr a \<and> value_of ord e vals = Inr (aug_value a)"
  using assms
proof (induction e)
  case (ConstantExpression c)
  show ?case by (simp add: aug_value_simps)
next
  case (LeafExpression T k)
  then show ?case
    by (auto simp: Values_at_def aug_value_simps split: option.splits)
next
  case (UnaryExpression f eA)
  then obtain a where a: "augmented L eA vals = Inr a" "value_of ord eA vals = Inr (aug_value a)"
    by auto
  from UnaryExpression.prems
  have "fst (f (aug_value a) (requested a)) = fst (f (aug_value a) False)"
    by simp
  moreover have "value_of ord (UnaryExpression f eA) vals = Inr (fst (f (aug_value a) False))"
    using a(2) by simp
  ultimately show ?case
    unfolding augmented_Unary [OF a(1)] by (simp add: aug_value_simps)
next
  case (BinaryExpression f e1 e2)
  then obtain a1
    where a1: "augmented L e1 vals = Inr a1" "value_of ord e1 vals = Inr (aug_value a1)"
    by auto
  from BinaryExpression obtain a2
    where a2: "augmented L e2 vals = Inr a2" "value_of ord e2 vals = Inr (aug_value a2)"
    by auto
  from BinaryExpression.prems
  have "fst (f (aug_value a1) (aug_value a2) (requested a1) (requested a2)) =
        fst (f (aug_value a1) (aug_value a2) False False)"
    by simp
  moreover have "value_of ord (BinaryExpression f e1 e2) vals =
      Inr (fst (f (aug_value a1) (aug_value a2) False False))"
    using a1(2) a2(2) by (simp add: Let_def)
  ultimately show ?case
    unfolding augmented_Binary [OF a1(1) a2(1)] by (simp add: aug_value_simps)
next
  case (TernaryExpression f e1 e2 e3)
  then obtain a1
    where a1: "augmented L e1 vals = Inr a1" "value_of ord e1 vals = Inr (aug_value a1)"
    by auto
  from TernaryExpression obtain a2
    where a2: "augmented L e2 vals = Inr a2" "value_of ord e2 vals = Inr (aug_value a2)"
    by auto
  from TernaryExpression obtain a3
    where a3: "augmented L e3 vals = Inr a3" "value_of ord e3 vals = Inr (aug_value a3)"
    by auto
  from TernaryExpression.prems
  have "fst (f (aug_value a1) (aug_value a2) (aug_value a3)
               (requested a1) (requested a2) (requested a3)) =
        fst (f (aug_value a1) (aug_value a2) (aug_value a3) False False False)"
    by simp
  moreover have "value_of ord (TernaryExpression f e1 e2 e3) vals =
      Inr (fst (f (aug_value a1) (aug_value a2) (aug_value a3) False False False))"
    using a1(2) a2(2) a3(2) by (simp add: Let_def)
  ultimately show ?case
    unfolding augmented_Ternary [OF a1(1) a2(1) a3(1)] by (simp add: aug_value_simps)
qed

theorem value_augmented_consistent_witness:
  "satisfied
     (TernaryExpression residual3 (LeafExpression ''LieScalar'' 1)
        (UnaryExpression square1 (LeafExpression ''LieScalar'' 2))
        (BinaryExpression multiply2 (ConstantExpression 5) (LeafExpression ''LieScalar'' 3)))
     bindings
   \<and> same_value
     (TernaryExpression residual3 (LeafExpression ''LieScalar'' 1)
        (UnaryExpression square1 (LeafExpression ''LieScalar'' 2))
        (BinaryExpression multiply2 (ConstantExpression 5) (LeafExpression ''LieScalar'' 3)))
   \<and> (\<exists>a. augmented scalar_library
          (TernaryExpression residual3 (LeafExpression ''LieScalar'' 1)
             (UnaryExpression square1 (LeafExpression ''LieScalar'' 2))
             (BinaryExpression multiply2 (ConstantExpression 5)
                (LeafExpression ''LieScalar'' 3)))
          bindings = Inr a
        \<and> aug_value a = - 28
        \<and> value_of right_to_left
          (TernaryExpression residual3 (LeafExpression ''LieScalar'' 1)
             (UnaryExpression square1 (LeafExpression ''LieScalar'' 2))
             (BinaryExpression multiply2 (ConstantExpression 5)
                (LeafExpression ''LieScalar'' 3)))
          bindings = Inr (- 28))"
proof -
  let ?e = "TernaryExpression residual3 (LeafExpression ''LieScalar'' 1)
        (UnaryExpression square1 (LeafExpression ''LieScalar'' 2))
        (BinaryExpression multiply2 (ConstantExpression 5) (LeafExpression ''LieScalar'' 3))"
  have s: "satisfied ?e bindings"
    by (simp add: bindings_def)
  have v: "same_value ?e"
    by (simp add: square1_def multiply2_def residual3_def)
  have "value_of right_to_left ?e bindings = Inr (- 28)"
    by (simp add: example_defs Let_def)
  with value_augmented_consistent [OF s v, of scalar_library right_to_left] s v show ?thesis
    by auto
qed

text \<open>
  Claim C3: when the Jacobian maps of both children of a binary node hold the key
  \<open>k\<close>, with blocks \<open>b1\<close> and \<open>b2\<close>, the map of the node holds under \<open>k\<close> the sum
  \<open>H1 * b1 + H2 * b2\<close> of the two paths, \<open>H1\<close> and \<open>H2\<close> being the local Jacobians
  the wrapped function writes. The step of the accumulation stores \<open>H * b1\<close> under a
  key that is not yet present and adds \<open>H * b1\<close> to the block found under a key that
  is, and never replaces that block.
\<close>

theorem binary_shared_key_sum:
  assumes "augmented L e1 vals = Inr a1" and "augmented L e2 vals = Inr a2"
    and "find_key k (jacobians a1) = Some b1" and "find_key k (jacobians a2) = Some b2"
    and "f (aug_value a1) (aug_value a2) True True = (t, H1, H2)"
  shows "(\<exists>a. augmented L (BinaryExpression f e1 e2) vals = Inr a \<and> aug_value a = t
            \<and> find_key k (jacobians a) = Some (H1 * b1 + H2 * b2))
       \<and> (\<forall>H jac. find_key k (add H (jacobians a1) jac) =
             Some (case find_key k jac of None \<Rightarrow> H * b1 | Some old \<Rightarrow> old + H * b1))"
proof -
  have r: "requested a1" "requested a2"
    using assms(3,4) by (auto dest: find_key_Some_requested)
  have d: "distinct (map fst (jacobians a1))" "distinct (map fst (jacobians a2))"
    using assms(1,2) by (auto dest!: augmented_ordered ordered_distinct)
  have step: "find_key k (add H (jacobians a1) jac) =
      Some (case find_key k jac of None \<Rightarrow> H * b1 | Some old \<Rightarrow> old + H * b1)" for H jac
    using d(1) assms(3) by (simp add: find_key_add_present split: option.splits)
  have 1: "find_key k (add H1 (jacobians a1) []) = Some (H1 * b1)"
    by (simp add: step)
  have 2: "find_key k (add H2 (jacobians a2) (add H1 (jacobians a1) [])) =
      Some (H1 * b1 + H2 * b2)"
    using d(2) assms(4) by (simp add: find_key_add_present 1)
  have "augmented L (BinaryExpression f e1 e2) vals =
      Inr (Augmented2 t H1 (jacobians a1) H2 (jacobians a2))"
    unfolding augmented_Binary [OF assms(1,2)] using r assms(5) by (simp add: slot_def)
  with 2 step show ?thesis
    by (simp add: aug_value_simps jacobians_simps)
qed

theorem binary_shared_key_sum_witness:
  "augmented scalar_library (LeafExpression ''LieScalar'' 2) bindings =
     Inr \<lparr>aug_value = 3, jacobians = [(2, 1)]\<rparr>
   \<and> find_key 2 [(2, 1 :: int)] = Some 1
   \<and> multiply2 3 3 True True = (9, 3, 3)
   \<and> (\<exists>a. augmented scalar_library
          (BinaryExpression multiply2 (LeafExpression ''LieScalar'' 2)
             (LeafExpression ''LieScalar'' 2)) bindings = Inr a
        \<and> aug_value a = 9 \<and> find_key 2 (jacobians a) = Some 6)"
proof -
  have a: "augmented scalar_library (LeafExpression ''LieScalar'' 2) bindings =
     Inr \<lparr>aug_value = 3, jacobians = [(2, 1)]\<rparr>"
    by (simp add: example_defs)
  have k: "find_key 2 (jacobians \<lparr>aug_value = 3 :: int, jacobians = [(2, 1 :: int)]\<rparr>) = Some 1"
    by simp
  have f: "multiply2 (aug_value \<lparr>aug_value = 3 :: int, jacobians = [(2, 1 :: int)]\<rparr>)
     (aug_value \<lparr>aug_value = 3 :: int, jacobians = [(2, 1 :: int)]\<rparr>) True True = (9, 3, 3)"
    by (simp add: multiply2_def)
  from binary_shared_key_sum [where f = multiply2, OF a a k k f] a show ?thesis
    by (simp add: multiply2_def)
qed

text \<open>
  Claim C4: the augmented value of a constant node has an empty Jacobian map and is
  constant. A unary, binary or ternary node whose children all return constant augmented
  values passes no slot to its wrapped function (the value it returns is the one the
  function gives when every flag is \<open>False\<close>, whatever the function) and returns an
  augmented value with an empty map.
\<close>

theorem constant_short_circuit:
  "(\<exists>r. augmented L (ConstantExpression c) vals = Inr r
        \<and> aug_value r = c \<and> jacobians r = [] \<and> is_constant r)
   \<and> (augmented L eA vals = Inr a \<and> is_constant a \<longrightarrow>
        \<not> requested a
        \<and> (\<exists>r. augmented L (UnaryExpression fu eA) vals = Inr r
              \<and> aug_value r = fst (fu (aug_value a) False)
              \<and> jacobians r = [] \<and> is_constant r))
   \<and> (augmented L ea vals = Inr aa \<and> is_constant aa
        \<and> augmented L eb vals = Inr ab \<and> is_constant ab \<longrightarrow>
        \<not> requested aa \<and> \<not> requested ab
        \<and> (\<exists>r. augmented L (BinaryExpression fb ea eb) vals = Inr r
              \<and> aug_value r = fst (fb (aug_value aa) (aug_value ab) False False)
              \<and> jacobians r = [] \<and> is_constant r))
   \<and> (augmented L ea vals = Inr aa \<and> is_constant aa
        \<and> augmented L eb vals = Inr ab \<and> is_constant ab
        \<and> augmented L ec vals = Inr ac \<and> is_constant ac \<longrightarrow>
        \<not> requested aa \<and> \<not> requested ab \<and> \<not> requested ac
        \<and> (\<exists>r. augmented L (TernaryExpression ft ea eb ec) vals = Inr r
              \<and> aug_value r =
                  fst (ft (aug_value aa) (aug_value ab) (aug_value ac) False False False)
              \<and> jacobians r = [] \<and> is_constant r))"
  for L :: "('v, 'm::{plus,times}) library"
  by (simp add: Augmented_constant_def is_constant_def requested_def Augmented1_def
      Augmented2_def add_Nil split: prod.splits)

theorem constant_short_circuit_witness:
  "augmented scalar_library (ConstantExpression 2 :: (string, int, int) ExpressionNode) bindings
     = Inr \<lparr>aug_value = 2, jacobians = []\<rparr>
   \<and> is_constant \<lparr>aug_value = 2 :: int, jacobians = [] :: int JacobianMap\<rparr>
   \<and> (\<exists>r. augmented scalar_library (UnaryExpression square1 (ConstantExpression 2)) bindings
          = Inr r \<and> aug_value r = 4 \<and> jacobians r = [] \<and> is_constant r)
   \<and> (\<exists>r. augmented scalar_library
          (BinaryExpression multiply2 (ConstantExpression 2) (ConstantExpression 2)) bindings
          = Inr r \<and> aug_value r = 4 \<and> jacobians r = [] \<and> is_constant r)
   \<and> (\<exists>r. augmented scalar_library
          (TernaryExpression residual3 (ConstantExpression 2) (ConstantExpression 2)
             (ConstantExpression 2)) bindings
          = Inr r \<and> aug_value r = 4 \<and> jacobians r = [] \<and> is_constant r)"
proof -
  let ?c = "ConstantExpression 2 :: (string, int, int) ExpressionNode"
  let ?a = "\<lparr>aug_value = 2 :: int, jacobians = [] :: int JacobianMap\<rparr>"
  have a: "augmented scalar_library ?c bindings = Inr ?a"
    by (simp add: Augmented_constant_def)
  have c: "is_constant ?a"
    by (simp add: is_constant_def)
  have v: "fst (square1 2 False) = 4" "fst (multiply2 2 2 False False) = 4"
    "fst (residual3 2 2 2 False False False) = 4"
    by (simp_all add: square1_def multiply2_def residual3_def)
  from a c constant_short_circuit [where L = scalar_library and c = 2 and vals = bindings
      and eA = "?c" and ea = "?c" and eb = "?c" and ec = "?c" and a = "?a" and aa = "?a"
      and ab = "?a" and ac = "?a" and fu = square1 and fb = multiply2 and ft = residual3]
  show ?thesis
    by (simp add: v del: augmented.simps)
qed

text \<open>
  Claim C5: a leaf with key \<open>k\<close> and type \<open>T\<close>, evaluated by \<open>value\<close> or by
  \<open>augmented\<close> on a binding where \<open>k\<close> is absent, returns the error of the missing
  variable; where \<open>k\<close> is bound to a value of another type, the error of the mismatched
  type; in both cases no value. Where \<open>k\<close> is bound to a value of type \<open>T\<close>, both
  return that value.
\<close>

theorem leaf_lookup:
  "(vals k = None \<longrightarrow>
      value_of ord (LeafExpression T k) vals = Inl (MissingVariable k)
      \<and> augmented L (LeafExpression T k) vals = Inl (MissingVariable k))
   \<and> (vals k = Some (T', v) \<and> T' \<noteq> T \<longrightarrow>
      value_of ord (LeafExpression T k) vals = Inl (TypeMismatch k)
      \<and> augmented L (LeafExpression T k) vals = Inl (TypeMismatch k))
   \<and> (vals k = Some (T, v) \<longrightarrow>
      value_of ord (LeafExpression T k) vals = Inr v
      \<and> (\<exists>a. augmented L (LeafExpression T k) vals = Inr a \<and> aug_value a = v))"
  by (simp add: Values_at_def aug_value_simps)

theorem leaf_lookup_witness:
  "bindings 7 = None
   \<and> value_of right_to_left (LeafExpression ''LieScalar'' 7) bindings = Inl (MissingVariable 7)
   \<and> augmented scalar_library (LeafExpression ''LieScalar'' 7) bindings
       = Inl (MissingVariable 7)
   \<and> bindings 1 = Some (''LieScalar'', 2) \<and> ''LieScalar'' \<noteq> ''Sphere2''
   \<and> value_of right_to_left (LeafExpression ''Sphere2'' 1) bindings = Inl (TypeMismatch 1)
   \<and> augmented scalar_library (LeafExpression ''Sphere2'' 1) bindings = Inl (TypeMismatch 1)
   \<and> value_of right_to_left (LeafExpression ''LieScalar'' 1) bindings = Inr 2
   \<and> (\<exists>a. augmented scalar_library (LeafExpression ''LieScalar'' 1) bindings = Inr a
          \<and> aug_value a = 2)"
proof -
  have m: "bindings 7 = None"
    by (simp add: bindings_def)
  have b: "bindings 1 = Some (''LieScalar'', 2)"
    by (simp add: bindings_def)
  have n: "''LieScalar'' \<noteq> ''Sphere2''"
    by simp
  from m leaf_lookup [where ord = right_to_left and vals = bindings and k = 7 and T = "''LieScalar''"
      and L = scalar_library]
  have 1: "value_of right_to_left (LeafExpression ''LieScalar'' 7) bindings = Inl (MissingVariable 7)
     \<and> augmented scalar_library (LeafExpression ''LieScalar'' 7) bindings
         = Inl (MissingVariable 7)"
    by blast
  from b n leaf_lookup [where ord = right_to_left and vals = bindings and k = 1 and T = "''Sphere2''"
      and T' = "''LieScalar''" and v = 2 and L = scalar_library]
  have 2: "value_of right_to_left (LeafExpression ''Sphere2'' 1) bindings = Inl (TypeMismatch 1)
     \<and> augmented scalar_library (LeafExpression ''Sphere2'' 1) bindings
         = Inl (TypeMismatch 1)"
    by blast
  from b leaf_lookup [where ord = right_to_left and vals = bindings and k = 1 and T = "''LieScalar''" and v = 2
      and L = scalar_library]
  have 3: "value_of right_to_left (LeafExpression ''LieScalar'' 1) bindings = Inr 2
     \<and> (\<exists>a. augmented scalar_library (LeafExpression ''LieScalar'' 1) bindings = Inr a
            \<and> aug_value a = 2)"
    by blast
  from m b n 1 2 3 show ?thesis
    by blast
qed

text \<open>
  Claim C6: \<open>keys\<close> returns the set of the keys of the leaves that can be reached in
  the subtree of the node: the empty set for a constant, the one key of a leaf, the keys of
  the child of a unary node, the union of the keys of the children of a binary and of a
  ternary node; a key that several leaves or a repeated child carry is in the set once.
\<close>

theorem keys_are_leaf_keys:
  "keys e = set (leaf_keys e)
   \<and> keys (ConstantExpression c :: ('t, 'v, 'm) ExpressionNode) = {}
   \<and> keys (LeafExpression T k :: ('t, 'v, 'm) ExpressionNode) = {k}
   \<and> keys (UnaryExpression fu eA) = keys eA
   \<and> keys (BinaryExpression fb ea eb) = keys ea \<union> keys eb
   \<and> keys (TernaryExpression ft ea eb ec) = keys ea \<union> keys eb \<union> keys ec
   \<and> keys (BinaryExpression fb ea ea) = keys ea"
proof -
  have "keys e = set (leaf_keys e)"
    by (induction e) (auto simp: Let_def)
  then show ?thesis
    by (auto simp: Let_def)
qed

text \<open>
  Claim C7: the augmented value constructed from a value \<open>t\<close> and a key \<open>k\<close> holds
  \<open>t\<close> and a Jacobian map with the one entry of \<open>k\<close>, the identity matrix of \<open>n\<close>
  rows and columns for \<open>n\<close> the dimension of \<open>t\<close>; it is what \<open>augmented\<close> of a
  leaf returns on a binding of \<open>k\<close> to \<open>t\<close>.
\<close>

theorem leaf_augmented_identity:
  "Augmented_key L t k =
     \<lparr>aug_value = t, jacobians = [(k, Identity L (dim L t) (dim L t))]\<rparr>
   \<and> length (jacobians (Augmented_key L t k)) = 1
   \<and> find_key k (jacobians (Augmented_key L t k)) = Some (Identity L (dim L t) (dim L t))
   \<and> augmented L (LeafExpression T k) (vals(k \<mapsto> (T, t))) =
       Inr \<lparr>aug_value = t, jacobians = [(k, Identity L (dim L t) (dim L t))]\<rparr>"
  by (simp add: Augmented_key_unfold Values_at_def)




text \<open>
  Claim C9: when a child of a unary, binary or ternary node is constant, its local
  Jacobian is passed to the constructor with an empty map and contributes nothing, so that
  the map of the node is the fold of the pairs of the children that are not constant. This
  holds of the unary and the binary node. The ternary node leaves the pair of its third
  child out whether that child is constant or not: on the residual over the constant 2
  and the leaves with keys 2 and 3 the first child is constant, the map returned has the
  entry of key 2 only, and the fold of the pairs of the second and the third child has the
  entries of keys 2 and 3.
\<close>

theorem ternary_constant_first_child:
  "augmented scalar_library
     (TernaryExpression residual3 (ConstantExpression 2)
        (LeafExpression ''LieScalar'' 2) (LeafExpression ''LieScalar'' 3)) bindings =
     Inr \<lparr>aug_value = 0, jacobians = [(2, - 2)]\<rparr>
   \<and> residual3 2 3 4 False True True = (0, - 3, - 2, - 1)
   \<and> augmented scalar_library
       (ConstantExpression 2 :: (string, int, int) ExpressionNode) bindings =
     Inr \<lparr>aug_value = 2, jacobians = []\<rparr>
   \<and> augmented scalar_library (LeafExpression ''LieScalar'' 2) bindings =
     Inr \<lparr>aug_value = 3, jacobians = [(2, 1)]\<rparr>
   \<and> augmented scalar_library (LeafExpression ''LieScalar'' 3) bindings =
     Inr \<lparr>aug_value = 4, jacobians = [(3, 1)]\<rparr>
   \<and> add (- 1) [(3, 1)] (add (- 2) [(2, 1)] []) = [(2, - 2), (3, - 1 :: int)]"
  by (simp add: example_defs)

text \<open>
  Claim C10: whenever \<open>augmented\<close> returns, every key of the Jacobian map it returns
  is among the \<open>keys\<close> of the node.
\<close>

theorem jacobian_keys_subset:
  assumes "augmented L e vals = Inr a"
  shows "fst ` set (jacobians a) \<subseteq> keys e"
  using assms
proof (induction e arbitrary: a)
  case (ConstantExpression c)
  then show ?case by (auto simp: jacobians_simps)
next
  case (LeafExpression T k)
  then show ?case by (auto simp: jacobians_simps split: sum.splits)
next
  case (UnaryExpression f eA)
  from UnaryExpression.prems obtain arg H where arg: "augmented L eA vals = Inr arg"
    and j: "jacobians a = add H (jacobians arg) []"
    by (rule augmented_Unary_Inr)
  from arg UnaryExpression.IH have "fst ` set (jacobians arg) \<subseteq> keys eA" by simp
  moreover from j have "fst ` set (jacobians a) = fst ` set (jacobians arg)"
    by (simp add: keys_add)
  ultimately show ?case by simp
next
  case (BinaryExpression f e1 e2)
  from BinaryExpression.prems obtain a1 a2 H1 H2
    where arg: "augmented L e1 vals = Inr a1" "augmented L e2 vals = Inr a2"
    and j: "jacobians a = add H2 (jacobians a2) (add H1 (jacobians a1) [])"
    by (rule augmented_Binary_Inr)
  from arg BinaryExpression.IH
  have "fst ` set (jacobians a1) \<subseteq> keys e1" "fst ` set (jacobians a2) \<subseteq> keys e2"
    by simp_all
  moreover from j
  have "fst ` set (jacobians a) = fst ` set (jacobians a1) \<union> fst ` set (jacobians a2)"
    by (simp add: keys_add Un_commute)
  ultimately show ?case by (auto simp: Let_def)
next
  case (TernaryExpression f e1 e2 e3)
  from TernaryExpression.prems obtain a1 a2 a3 H1 H2
    where arg: "augmented L e1 vals = Inr a1" "augmented L e2 vals = Inr a2"
      "augmented L e3 vals = Inr a3"
    and j: "jacobians a = add H2 (jacobians a2) (add H1 (jacobians a1) [])"
    by (rule augmented_Ternary_Inr)
  from arg TernaryExpression.IH
  have "fst ` set (jacobians a1) \<subseteq> keys e1" "fst ` set (jacobians a2) \<subseteq> keys e2"
    by simp_all
  moreover from j
  have "fst ` set (jacobians a) = fst ` set (jacobians a1) \<union> fst ` set (jacobians a2)"
    by (simp add: keys_add Un_commute)
  ultimately show ?case by (auto simp: Let_def)
qed

theorem jacobian_keys_subset_witness:
  "augmented scalar_library
     (BinaryExpression multiply2 (LeafExpression ''LieScalar'' 1) (ConstantExpression 5))
     bindings = Inr \<lparr>aug_value = 10, jacobians = [(1, 5)]\<rparr>
   \<and> fst ` set [(1 :: nat, 5 :: int)]
       \<subseteq> keys (BinaryExpression multiply2 (LeafExpression ''LieScalar'' 1)
                 (ConstantExpression 5) :: (string, int, int) ExpressionNode)"
proof -
  have a: "augmented scalar_library
     (BinaryExpression multiply2 (LeafExpression ''LieScalar'' 1) (ConstantExpression 5))
     bindings = Inr \<lparr>aug_value = 10, jacobians = [(1, 5)]\<rparr>"
    by (simp add: example_defs)
  from jacobian_keys_subset [OF a] a show ?thesis
    by simp
qed

end
